theory Spec2Isabelle
  imports Main
begin

section \<open>gloss: Grep for Logs on Open Source Systems\<close>

text \<open>
  A shallow embedding of \<^verbatim>\<open>gloss.py\<close>. The script assembles one regular expression from
  string fragments, compiles it, and scans every configured log file line by line:
  a line that matches is bound to a dictionary of variables, filtered by the where-clause
  and printed as \<^verbatim>\<open>name=value\<close> lines.

  The script is Python 2. Its strings are byte strings, here \<^typ>\<open>string\<close>; the standard
  output is the list of the strings handed to \<^verbatim>\<open>print\<close> (each is followed by a newline
  on the terminal), the standard error the list of the strings written to it.
\<close>

subsection \<open>Python strings\<close>

abbreviation bslash :: char where
  "bslash \<equiv> CHR 0x5C"

abbreviation squote :: char where
  "squote \<equiv> CHR 0x27"

text \<open>\<^verbatim>\<open>sep.join (xs)\<close>\<close>

fun join :: "string \<Rightarrow> string list \<Rightarrow> string" where
  "join sep [] = []"
| "join sep [x] = x"
| "join sep (x # y # ys) = x @ sep @ join sep (y # ys)"

text \<open>\<^verbatim>\<open>s.split (c)\<close> for a separator of one character: every occurrence splits.\<close>

fun split_on :: "char \<Rightarrow> string \<Rightarrow> string list" where
  "split_on c [] = [[]]"
| "split_on c (d # s) =
     (if d = c then [] # split_on c s
      else (case split_on c s of [] \<Rightarrow> [[d]] | x # xs \<Rightarrow> (d # x) # xs))"

text \<open>\<^verbatim>\<open>s.split (c, 1)\<close> on a string that contains \<open>c\<close>: the parts around its first occurrence.\<close>

definition split_first :: "char \<Rightarrow> string \<Rightarrow> string \<times> string" where
  "split_first c s = (takeWhile (\<lambda>d. d \<noteq> c) s, drop 1 (dropWhile (\<lambda>d. d \<noteq> c) s))"

definition is_space :: "char \<Rightarrow> bool" where
  "is_space c = (c \<in> set [CHR '' '', CHR 0x09, CHR 0x0A, CHR 0x0B, CHR 0x0C, CHR 0x0D])"

text \<open>\<^verbatim>\<open>s.strip ()\<close>\<close>

definition strip :: "string \<Rightarrow> string" where
  "strip s = rev (dropWhile is_space (rev (dropWhile is_space s)))"

text \<open>\<^verbatim>\<open>str (n)\<close> for a natural number.\<close>

definition digit_char :: "nat \<Rightarrow> char" where
  "digit_char n = ''0123456789'' ! n"

fun str_nat :: "nat \<Rightarrow> string" where
  "str_nat n = (if n < 10 then [digit_char n] else str_nat (n div 10) @ [digit_char (n mod 10)])"

text \<open>
  \<^verbatim>\<open>lfh.readlines ()\<close>: the content cut after every newline; each line keeps its newline,
  and only the last line can lack one.
\<close>

fun readlines :: "string \<Rightarrow> string list" where
  "readlines [] = []"
| "readlines (c # s) =
     (if c = CHR ''\<newline>'' then [c] # readlines s
      else (case readlines s of [] \<Rightarrow> [[c]] | l # ls \<Rightarrow> (c # l) # ls))"

subsection \<open>Regular expressions: the part of Python's \<^verbatim>\<open>re\<close> that the script uses\<close>

text \<open>
  A pattern is a string. \<open>re_compile\<close> parses it; \<open>re_match\<close> is \<^verbatim>\<open>pattern.match\<close>: a
  backtracking match anchored at the start of the subject, greedy repetition, alternatives
  tried from left to right. The syntax covered is what the fragments of the script are made
  of: literal characters, \<^verbatim>\<open>.\<close>, character sets with ranges and negation, escaped
  punctuation, capturing groups, \<^verbatim>\<open>(?:\<close> groups, \<^verbatim>\<open>|\<close>, and the repetitions \<^verbatim>\<open>*\<close>,
  \<^verbatim>\<open>+\<close>, \<^verbatim>\<open>?\<close>. \<open>re_compile\<close> returns \<open>None\<close> for a pattern that Python rejects
  (unbalanced parentheses, nothing to repeat, a repeated repetition, a bad range) and for
  syntax outside this part (anchors, counted repetition, escaped letters and digits,
  other \<^verbatim>\<open>(?\<close> extensions).
\<close>

datatype citem = One char | Range char char

datatype rx =
    Lit char
  | Dot
  | In bool "citem list"
  | Eps
  | Seq rx rx
  | Alt rx rx
  | Star rx
  | Plus rx
  | Opt rx
  | Group nat rx
  | NGroup rx

fun citem_ok :: "char \<Rightarrow> citem \<Rightarrow> bool" where
  "citem_ok d (One c) = (d = c)"
| "citem_ok d (Range lo hi) =
     ((of_char lo :: nat) \<le> of_char d \<and> (of_char d :: nat) \<le> of_char hi)"

definition is_alnum :: "char \<Rightarrow> bool" where
  "is_alnum c =
     (c \<in> set (''abcdefghijklmnopqrstuvwxyz'' @ ''ABCDEFGHIJKLMNOPQRSTUVWXYZ'' @ ''0123456789''))"

text \<open>
  The parser keeps a stack of open groups. A frame holds the group's number (\<open>None\<close> for
  \<^verbatim>\<open>(?:\<close> and for the pattern itself), its finished alternatives and the items of the
  alternative being read, both latest first.
\<close>

datatype frame = Frame "nat option" "rx list" "rx list"

fun mk_seq :: "rx list \<Rightarrow> rx" where
  "mk_seq [] = Eps"
| "mk_seq [r] = r"
| "mk_seq (r # rs) = Seq r (mk_seq rs)"

fun mk_alt :: "rx list \<Rightarrow> rx" where
  "mk_alt [] = Eps"
| "mk_alt [r] = r"
| "mk_alt (r # rs) = Alt r (mk_alt rs)"

definition frame_body :: "rx list \<Rightarrow> rx list \<Rightarrow> rx" where
  "frame_body alts items = mk_alt (rev (mk_seq (rev items) # alts))"

fun close_group :: "nat option \<Rightarrow> rx \<Rightarrow> rx" where
  "close_group (Some i) r = Group i r"
| "close_group None r = NGroup r"

fun is_repeat :: "rx \<Rightarrow> bool" where
  "is_repeat (Star r) = True"
| "is_repeat (Plus r) = True"
| "is_repeat (Opt r) = True"
| "is_repeat r = False"

definition quantify :: "char \<Rightarrow> rx \<Rightarrow> rx" where
  "quantify q r = (if q = CHR ''*'' then Star r else if q = CHR ''+'' then Plus r else Opt r)"

text \<open>One character of a set, escaped or not.\<close>

fun class_atom :: "string \<Rightarrow> (char \<times> string) option" where
  "class_atom [] = None"
| "class_atom (c # s) =
     (if c = bslash then
        (case s of [] \<Rightarrow> None
         | d # s' \<Rightarrow> if is_alnum d then None else Some (d, s'))
      else Some (c, s))"

text \<open>
  The items of a set up to its closing bracket. A bracket that comes first is an item;
  \<^verbatim>\<open>a-b\<close> is a range; a dash before the closing bracket is an item.
\<close>

function parse_items :: "citem list \<Rightarrow> string \<Rightarrow> (citem list \<times> string) option" where
  "parse_items acc s =
     (case s of [] \<Rightarrow> None
      | c # t \<Rightarrow>
         if c = CHR '']'' \<and> acc \<noteq> [] then Some (rev acc, t)
         else (case class_atom s of None \<Rightarrow> None
               | Some (lo, s1) \<Rightarrow>
                  (case s1 of [] \<Rightarrow> None
                   | d # s2 \<Rightarrow>
                      if d = CHR ''-'' then
                        (case s2 of [] \<Rightarrow> None
                         | e # s3 \<Rightarrow>
                            if e = CHR '']'' then Some (rev (One (CHR ''-'') # One lo # acc), s3)
                            else (case class_atom s2 of None \<Rightarrow> None
                                  | Some (hi, s4) \<Rightarrow>
                                     if (of_char hi :: nat) < of_char lo then None
                                     else parse_items (Range lo hi # acc) s4))
                      else parse_items (One lo # acc) s1)))"
  by pat_completeness auto

definition parse_class :: "string \<Rightarrow> (rx \<times> string) option" where
  "parse_class s =
     (case s of [] \<Rightarrow> None
      | c # t \<Rightarrow>
         if c = CHR ''^'' then map_option (\<lambda>(items, r). (In True items, r)) (parse_items [] t)
         else map_option (\<lambda>(items, r). (In False items, r)) (parse_items [] s))"

text \<open>
  The pattern, read from left to right; \<open>n\<close> counts the capturing groups opened so far, so
  that groups are numbered by their opening parenthesis, from 1.
\<close>

function parse :: "frame list \<Rightarrow> nat \<Rightarrow> string \<Rightarrow> (rx \<times> nat) option" where
  "parse stk n [] =
     (case stk of [Frame k alts items] \<Rightarrow> Some (frame_body alts items, n) | _ \<Rightarrow> None)"
| "parse stk n (c # s) =
     (case stk of [] \<Rightarrow> None
      | Frame k alts items # up \<Rightarrow>
         if c = CHR ''('' then
           (case s of [] \<Rightarrow> None
            | q # s1 \<Rightarrow>
               if q = CHR ''?'' then
                 (case s1 of [] \<Rightarrow> None
                  | d # s2 \<Rightarrow>
                     if d = CHR '':'' then parse (Frame None [] [] # stk) n s2 else None)
               else parse (Frame (Some (Suc n)) [] [] # stk) (Suc n) s)
         else if c = CHR '')'' then
           (case up of [] \<Rightarrow> None
            | Frame k' alts' items' # up' \<Rightarrow>
               parse (Frame k' alts' (close_group k (frame_body alts items) # items') # up') n s)
         else if c = CHR ''|'' then parse (Frame k (mk_seq (rev items) # alts) [] # up) n s
         else if c = CHR ''*'' \<or> c = CHR ''+'' \<or> c = CHR ''?'' then
           (case items of [] \<Rightarrow> None
            | r # rs \<Rightarrow>
               if is_repeat r then None
               else parse (Frame k alts (quantify c r # rs) # up) n s)
         else if c = CHR ''['' then
           (case parse_class s of None \<Rightarrow> None
            | Some (cl, s1) \<Rightarrow> parse (Frame k alts (cl # items) # up) n s1)
         else if c = bslash then
           (case s of [] \<Rightarrow> None
            | d # s1 \<Rightarrow>
               if is_alnum d then None
               else parse (Frame k alts (Lit d # items) # up) n s1)
         else if c = CHR ''.'' then parse (Frame k alts (Dot # items) # up) n s
         else if c = CHR ''^'' \<or> c = CHR ''$'' \<or> c = CHR ''{'' then None
         else parse (Frame k alts (Lit c # items) # up) n s)"
  by pat_completeness auto

text \<open>\<^verbatim>\<open>re.compile (src)\<close>: the parsed pattern and its number of capturing groups.\<close>

definition re_compile :: "string \<Rightarrow> (rx \<times> nat) option" where
  "re_compile src = parse [Frame None [] []] 0 src"

fun rx_weight :: "rx \<Rightarrow> nat" where
  "rx_weight (Seq a b) = Suc (rx_weight a + rx_weight b)"
| "rx_weight (Alt a b) = Suc (rx_weight a + rx_weight b)"
| "rx_weight (Star a) = Suc (rx_weight a)"
| "rx_weight (Plus a) = Suc (Suc (rx_weight a))"
| "rx_weight (Opt a) = Suc (rx_weight a)"
| "rx_weight (Group i a) = Suc (rx_weight a)"
| "rx_weight (NGroup a) = Suc (rx_weight a)"
| "rx_weight r = 0"

text \<open>
  The state of a match: the rest of the subject and the text of every group (\<open>None\<close> for a
  group that has not taken part). \<open>ms r st\<close> lists the states in which \<open>r\<close> can end when
  started in \<open>st\<close>, in the order in which the backtracking matcher tries them; the head of
  the list is the match that Python reports. A repetition does not repeat an iteration
  that consumed nothing.
\<close>

type_synonym mstate = "string \<times> string option list"

fun one_char :: "(char \<Rightarrow> bool) \<Rightarrow> mstate \<Rightarrow> mstate list" where
  "one_char p ([], g) = []"
| "one_char p (d # t, g) = (if p d then [(t, g)] else [])"

function ms :: "rx \<Rightarrow> mstate \<Rightarrow> mstate list" where
  "ms (Lit c) st = one_char (\<lambda>d. d = c) st"
| "ms Dot st = one_char (\<lambda>d. d \<noteq> CHR ''\<newline>'') st"
| "ms (In neg items) st = one_char (\<lambda>d. list_ex (citem_ok d) items \<noteq> neg) st"
| "ms Eps st = [st]"
| "ms (Seq a b) st = concat (map (ms b) (ms a st))"
| "ms (Alt a b) st = ms a st @ ms b st"
| "ms (Star a) st =
     concat (map (\<lambda>st'. if length (fst st') < length (fst st) then ms (Star a) st' else [])
                 (ms a st)) @ [st]"
| "ms (Plus a) st = concat (map (ms (Star a)) (ms a st))"
| "ms (Opt a) st = ms a st @ [st]"
| "ms (Group i a) st =
     map (\<lambda>st'. (fst st',
                 (snd st')[i - 1 := Some (take (length (fst st) - length (fst st')) (fst st))]))
         (ms a st)"
| "ms (NGroup a) st = ms a st"
  by pat_completeness auto
termination
  by (relation "inv_image (less_than <*lex*> less_than)
                  (\<lambda>(r, st). (rx_weight r, length (fst st)))")
     auto

text \<open>
  \<^verbatim>\<open>p.match (s)\<close>, with \<^verbatim>\<open>.groups ()\<close> taken at once: \<open>None\<close> when there is no match, else
  the text of the groups 1 to \<open>n\<close>.
\<close>

definition re_match :: "rx \<times> nat \<Rightarrow> string \<Rightarrow> string option list option" where
  "re_match p s =
     (case ms (fst p) (s, replicate (snd p) None) of [] \<Rightarrow> None
      | st # _ \<Rightarrow> Some (snd st))"

text \<open>Whether the pattern \<open>src\<close> matches at the start of \<open>s\<close>.\<close>

definition re_matches :: "string \<Rightarrow> string \<Rightarrow> bool" where
  "re_matches src s = (case re_compile src of None \<Rightarrow> False | Some p \<Rightarrow> re_match p s \<noteq> None)"

subsection \<open>The command line\<close>

text \<open>
  The options as \<^verbatim>\<open>argparse\<close> hands them over, restricted to those the script reads.
  An option with \<^verbatim>\<open>action='append'\<close> and default \<^verbatim>\<open>None\<close> is \<open>None\<close> or a list;
  \<^verbatim>\<open>--where\<close> and \<^verbatim>\<open>--or\<close> fill one list, \<^verbatim>\<open>--or\<close> with the constant \<^verbatim>\<open>['OR']\<close>;
  \<^verbatim>\<open>--verbose\<close> counts its occurrences and is \<open>None\<close> without any.
\<close>

datatype where_arg = Clause string | OR

record args =
  args_logfile :: "string list option"
  args_pid :: "string list"
  args_hostname :: "string list option"
  args_driver :: "string list option"
  args_select :: "string list option"
  args_where :: "where_arg list"
  args_regexp :: "string list option"
  args_verbose :: "nat option"

text \<open>
  The file system: what \<^verbatim>\<open>open (path)\<close> followed by reading gives, the content of the
  file or the text of the \<^verbatim>\<open>IOError\<close> that \<^verbatim>\<open>open\<close> raises.
\<close>

type_synonym filesystem = "string \<Rightarrow> string + string"

text \<open>The exceptions that the script can meet; \<open>str_exn\<close> is \<^verbatim>\<open>str (e)\<close>.\<close>

datatype exn = IOError string | KeyError string | TypeError string

fun str_exn :: "exn \<Rightarrow> string" where
  "str_exn (IOError msg) = msg"
| "str_exn (KeyError k) = [squote] @ k @ [squote]"
| "str_exn (TypeError msg) = msg"

text \<open>How the run ends: \<^verbatim>\<open>sys.exit (n)\<close>, or an exception that nothing catches.\<close>

datatype ending = Exited nat | Uncaught exn

text \<open>What stops the script before the scan: a message on the standard error and
  \<^verbatim>\<open>sys.exit (1)\<close>, or an exception.\<close>

datatype halt = Exit1 string | Raised exn

text \<open>The names to print, from \<^verbatim>\<open>--select\<close>: the non-empty parts between equals signs.\<close>

definition select_names :: "string list \<Rightarrow> string list" where
  "select_names sel = concat (map (\<lambda>seln. filter (\<lambda>e. e \<noteq> []) (split_on (CHR ''='') seln)) sel)"

text \<open>
  A condition is the triple \<^verbatim>\<open>(var, val, same)\<close> of the script, or the triple of three
  \<^verbatim>\<open>None\<close> that stands for \<^verbatim>\<open>--or\<close>.
\<close>

datatype condition = Test string string bool | OrMarker

fun conditions :: "where_arg list \<Rightarrow> condition list \<Rightarrow> string + condition list" where
  "conditions [] acc = Inr acc"
| "conditions (OR # ws) acc = conditions ws (acc @ [OrMarker])"
| "conditions (Clause w # ws) acc =
     (if CHR ''='' \<notin> set w then
        Inl (''Invalid where clause; use varname=value: '' @ w @ ''\<newline>'')
      else
        (let wvar = fst (split_first (CHR ''='') w);
             wval = snd (split_first (CHR ''='') w);
             same = (wvar = [] \<or> last wvar \<noteq> CHR ''!'');
             wvar = (if same then wvar else butlast wvar)
         in if wvar = [] then Inl ''You must supply a variable name in --where\<newline>''
            else conditions ws (acc @ [Test wvar wval same])))"

subsection \<open>The fragments and the assembled pattern\<close>

definition re_numeric :: string where
  "re_numeric = ''[0-9]+''"

definition re_netstat :: string where
  "re_netstat = ''(?:tcp|udp|sctp):[0-9]+''"

text \<open>
  \<^verbatim>\<open>opt_month\<close> and \<^verbatim>\<open>opt_day\<close> are Python sets, and the alternatives are joined in the
  order in which the set is iterated. For the days, small integers, that is the ascending
  order. For the months the order depends on the interpreter's string hash; they are taken
  here in the order of the source text. No month is the start of another one, so that every
  order of the months accepts the same text with the same groups.
\<close>

definition opt_month :: "string list" where
  "opt_month = [''Jan'', ''Feb'', ''Mar'', ''Apr'', ''May'', ''Jun'',
                ''Jul'', ''Aug'', ''Sep'', ''Oct'', ''Nov'', ''Dec'']"

definition use_month :: "string list" where
  "use_month = opt_month"

definition re_month :: string where
  "re_month = ''('' @ join ''|'' use_month @ '')''"

definition ky_month :: "string list" where
  "ky_month = [''month'']"

definition opt_day :: "nat list" where
  "opt_day = [1 ..< 32]"

definition use_day :: "nat list" where
  "use_day = opt_day"

definition re_day :: string where
  "re_day = ''('' @ join ''|'' (map str_nat use_day) @ '')''"

definition ky_day :: "string list" where
  "ky_day = [''day'']"

definition re_time :: string where
  "re_time = ''([01][0-9]|2[0-3]:[0-5][0-9]:[0-5][0-9])''"

definition ky_time :: "string list" where
  "ky_time = [''time'']"

definition re_tstamp :: string where
  "re_tstamp = ''(('' @ re_month @ '' +'' @ re_day @ '') '' @ re_time @ '')''"

definition ky_tstamp :: "string list" where
  "ky_tstamp = [''timestamp'', ''date''] @ ky_month @ ky_day @ ky_time"

definition re_host :: "string list option \<Rightarrow> string" where
  "re_host hostname =
     (case hostname of None \<Rightarrow> ''([^ ]+)'' | Some hs \<Rightarrow> ''('' @ join ''|'' hs @ '')'')"

definition ky_host :: "string list" where
  "ky_host = [''host'']"

text \<open>
  The loop over \<^verbatim>\<open>--pid\<close>: a path is replaced by the stripped content of the file, a
  network endpoint ends the run, and what starts with a digit restricts the pid, anything
  else the process name.
\<close>

fun use_pid_proc ::
  "filesystem \<Rightarrow> string list \<Rightarrow> string list \<times> string list \<Rightarrow> halt + string list \<times> string list"
where
  "use_pid_proc fs [] acc = Inr acc"
| "use_pid_proc fs (pid # pids) (use_pid, use_proc) =
     (if take 1 pid = ''/'' then
        (case fs pid of
           Inl msg \<Rightarrow> Inl (Raised (IOError msg))
         | Inr content \<Rightarrow>
            (if re_matches re_numeric (strip content)
             then use_pid_proc fs pids (use_pid @ [strip content], use_proc)
             else use_pid_proc fs pids (use_pid, use_proc @ [strip content])))
      else if re_matches re_netstat pid then
        Inl (Exit1 (''No support yet for --pid '' @ pid @ ''\<newline>''))
      else if re_matches re_numeric pid then use_pid_proc fs pids (use_pid @ [pid], use_proc)
      else use_pid_proc fs pids (use_pid, use_proc @ [pid]))"

definition re_proc :: "string list \<Rightarrow> string" where
  "re_proc use_proc =
     (if use_proc = [] then ''([^:]*[^:'' @ [bslash] @ '']])''
      else ''('' @ join ''|'' use_proc @ '')'')"

definition re_pid :: "string list \<Rightarrow> string" where
  "re_pid use_pid =
     (if use_pid = [] then ''(?:'' @ [bslash] @ ''[([0-9]+)'' @ [bslash] @ ''])?''
      else [bslash] @ ''[('' @ join ''|'' use_pid @ '')'' @ [bslash] @ '']'')"

definition ky_proc :: "string list" where
  "ky_proc = [''proc'']"

definition ky_pid :: "string list" where
  "ky_pid = [''pid'']"

definition re_rest :: "string list option \<Rightarrow> string" where
  "re_rest regexp =
     (case regexp of None \<Rightarrow> ''(.*)'' | Some rs \<Rightarrow> ''(.*'' @ join ''.*|.*'' rs @ ''.*)'')"

definition ky_rest :: "string list" where
  "ky_rest = [''logentry'']"

definition re_logline ::
  "string list option \<Rightarrow> string list \<Rightarrow> string list \<Rightarrow> string list option \<Rightarrow> string" where
  "re_logline hostname use_proc use_pid regexp =
     re_tstamp @ '' '' @ re_host hostname @ '' '' @ re_proc use_proc @ re_pid use_pid
       @ '': +'' @ re_rest regexp @ ''\<newline>''"

definition ky_logline :: "string list" where
  "ky_logline = ky_tstamp @ ky_host @ ky_proc @ ky_pid @ ky_rest"

subsection \<open>The scan\<close>

text \<open>
  \<^verbatim>\<open>dict (zip (keys, groups))\<close>: \<^verbatim>\<open>zip\<close> stops at the shorter list, and a key that occurs
  twice keeps its last value. A value is the text of a group, or \<open>None\<close> for Python's
  \<^verbatim>\<open>None\<close>, the value of a group that took no part in the match.
\<close>

type_synonym linevars = "string \<rightharpoonup> string option"

definition dict_zip :: "string list \<Rightarrow> string option list \<Rightarrow> linevars" where
  "dict_zip keys groups = map_of (rev (zip keys groups))"

text \<open>
  The loop over the conditions, started with \<^verbatim>\<open>where = True\<close>. At the marker of \<^verbatim>\<open>--or\<close>
  the loop is left when \<^verbatim>\<open>where\<close> holds. \<^verbatim>\<open>has_key\<close> and the comparisons raise nothing;
  \<^verbatim>\<open>None == val\<close> is false.
\<close>

fun where_loop :: "condition list \<Rightarrow> linevars \<Rightarrow> bool \<Rightarrow> bool" where
  "where_loop [] linevars wh = wh"
| "where_loop (OrMarker # cs) linevars wh =
     (if wh then True else where_loop cs linevars True)"
| "where_loop (Test var val eq # cs) linevars wh =
     (case linevars var of
        None \<Rightarrow> where_loop cs linevars False
      | Some bound \<Rightarrow>
         if (bound = Some val) \<noteq> eq then where_loop cs linevars False
         else where_loop cs linevars wh)"

text \<open>The where-clause of one line: lines 256 to 267, the assignment and the loop.\<close>

definition where_clause :: "condition list \<Rightarrow> linevars \<Rightarrow> bool" where
  "where_clause conds linevars = where_loop conds linevars True"

text \<open>
  The loop that prints the selected variables. \<^verbatim>\<open>linevars [var]\<close> raises \<^verbatim>\<open>KeyError\<close>
  for a name that is not bound, and \<^verbatim>\<open>var + '=' + None\<close> raises \<^verbatim>\<open>TypeError\<close>. What was
  printed before stays printed: the function returns the standard output in both cases.
\<close>

fun print_vars :: "string list \<Rightarrow> linevars \<Rightarrow> string list \<Rightarrow> exn option \<times> string list" where
  "print_vars [] linevars out = (None, out)"
| "print_vars (var # vars) linevars out =
     (case linevars var of
        None \<Rightarrow> (Some (KeyError var), out)
      | Some None \<Rightarrow>
         (Some (TypeError (''cannot concatenate '' @ [squote] @ ''str'' @ [squote] @ '' and ''
                           @ [squote] @ ''NoneType'' @ [squote] @ '' objects'')), out)
      | Some (Some v) \<Rightarrow> print_vars vars linevars (out @ [var @ ''='' @ v]))"

text \<open>What the scan is set up with, once per run.\<close>

record scanner =
  seeline :: "rx \<times> nat"
  where_conditions :: "condition list"
  var_names :: "string list"
  verbose :: bool

text \<open>
  One line. For a line that does not match, under \<^verbatim>\<open>--verbose\<close>, the script calls
  \<^verbatim>\<open>sys.stderr.write\<close> with two arguments; the method takes one, so that the call raises
  \<^verbatim>\<open>TypeError\<close> before anything is written and before \<^verbatim>\<open>warning\<close> is set.
\<close>

definition scan_line :: "scanner \<Rightarrow> string \<Rightarrow> string list \<Rightarrow> exn option \<times> string list" where
  "scan_line su lfl out =
     (case re_match (seeline su) lfl of
        None \<Rightarrow>
          if verbose su then (Some (TypeError ''function takes exactly 1 argument (2 given)''), out)
          else (None, out)
      | Some groups \<Rightarrow>
          if where_clause (where_conditions su) (dict_zip ky_logline groups) then
            (case print_vars (var_names su) (dict_zip ky_logline groups) out of
               (Some e, out') \<Rightarrow> (Some e, out')
             | (None, out') \<Rightarrow> (None, out' @ [[]]))
          else (None, out))"

text \<open>The lines of one file; an exception ends the loop.\<close>

fun scan_lines :: "scanner \<Rightarrow> string list \<Rightarrow> string list \<Rightarrow> exn option \<times> string list" where
  "scan_lines su [] out = (None, out)"
| "scan_lines su (lfl # lfls) out =
     (case scan_line su lfl out of
        (Some e, out') \<Rightarrow> (Some e, out')
      | (None, out') \<Rightarrow> scan_lines su lfls out')"

record io =
  stdout :: "string list"
  stderr :: "string list"
  warning :: bool

text \<open>
  One file, inside \<^verbatim>\<open>try\<close>: every exception, from \<^verbatim>\<open>open\<close> or from a line, is caught by
  the handler, which reports the file as not accessible and sets \<^verbatim>\<open>warning\<close>.
\<close>

definition try_logfile :: "scanner \<Rightarrow> filesystem \<Rightarrow> string \<Rightarrow> string list \<Rightarrow> exn option \<times> string list" where
  "try_logfile su fs lf out =
     (case fs lf of
        Inl msg \<Rightarrow> (Some (IOError msg), out)
      | Inr content \<Rightarrow> scan_lines su (readlines content) out)"

definition scan_logfile :: "scanner \<Rightarrow> filesystem \<Rightarrow> string \<Rightarrow> io \<Rightarrow> io" where
  "scan_logfile su fs lf st =
     (case try_logfile su fs lf (stdout st) of
        (None, out') \<Rightarrow> st\<lparr>stdout := out'\<rparr>
      | (Some e, out') \<Rightarrow>
          st\<lparr>stdout := out',
             stderr := stderr st @ [''Skipping non-accessible --logfile '' @ lf @ '' (''
                                     @ str_exn e @ '')\<newline>''],
             warning := True\<rparr>)"

fun scan :: "scanner \<Rightarrow> filesystem \<Rightarrow> string list \<Rightarrow> io \<Rightarrow> io" where
  "scan su fs [] st = st"
| "scan su fs (lf # lfs) st = scan su fs lfs (scan_logfile su fs lf st)"

subsection \<open>The script\<close>

record outcome =
  out_stdout :: "string list"
  out_stderr :: "string list"
  out_status :: ending

definition logfiles :: "args \<Rightarrow> string list option" where
  "logfiles a =
     (case args_logfile a of
        None \<Rightarrow> if args_driver a = None then Some [''/var/log/syslog'', ''/var/log/messages'']
                else None
      | Some lfs \<Rightarrow> Some lfs)"

definition is_verbose :: "args \<Rightarrow> bool" where
  "is_verbose a = (case args_verbose a of None \<Rightarrow> False | Some n \<Rightarrow> n \<noteq> 0)"

text \<open>
  The whole script, from the parsed options to the exit status. The result is \<open>None\<close> when
  the assembled pattern is not in the syntax that \<open>re_compile\<close> covers. Without log files
  (a driver and no \<^verbatim>\<open>--logfile\<close>) the loop over \<^verbatim>\<open>None\<close> raises outside every handler.
\<close>

definition main :: "args \<Rightarrow> filesystem \<Rightarrow> outcome option" where
  "main a fs =
     (case conditions (args_where a) [] of
        Inl msg \<Rightarrow> Some \<lparr>out_stdout = [], out_stderr = [msg], out_status = Exited 1\<rparr>
      | Inr conds \<Rightarrow>
         (case use_pid_proc fs (args_pid a) ([], []) of
            Inl (Exit1 msg) \<Rightarrow> Some \<lparr>out_stdout = [], out_stderr = [msg], out_status = Exited 1\<rparr>
          | Inl (Raised e) \<Rightarrow> Some \<lparr>out_stdout = [], out_stderr = [], out_status = Uncaught e\<rparr>
          | Inr (use_pid, use_proc) \<Rightarrow>
             (case re_compile (re_logline (args_hostname a) use_proc use_pid (args_regexp a)) of
                None \<Rightarrow> None
              | Some pat \<Rightarrow>
                 (case logfiles a of
                    None \<Rightarrow>
                      Some \<lparr>out_stdout =
                              [''REGEXP '' @ re_logline (args_hostname a) use_proc use_pid (args_regexp a)],
                            out_stderr = [],
                            out_status = Uncaught (TypeError (squote # ''NoneType'' @ [squote]
                                                              @ '' object is not iterable''))\<rparr>
                  | Some lfs \<Rightarrow>
                      (let st = scan \<lparr>seeline = pat, where_conditions = conds,
                                      var_names = (case args_select a of None \<Rightarrow> ky_logline
                                                   | Some sel \<Rightarrow> select_names sel),
                                      verbose = is_verbose a\<rparr>
                                     fs lfs
                                     \<lparr>stdout = [''REGEXP '' @ re_logline (args_hostname a) use_proc
                                                                 use_pid (args_regexp a)],
                                      stderr = [], warning = False\<rparr>
                       in Some \<lparr>out_stdout = stdout st, out_stderr = stderr st,
                                out_status = Exited (if warning st then 1 else 0)\<rparr>)))))"

subsection \<open>The default configuration\<close>

text \<open>No option restricts a fragment: the pattern that the script prints then.\<close>

definition default_logline :: string where
  "default_logline = re_logline None [] [] None"

text \<open>The options of a run without any option.\<close>

definition default_args :: args where
  "default_args =
     \<lparr>args_logfile = None, args_pid = [], args_hostname = None, args_driver = None,
      args_select = None, args_where = [], args_regexp = None, args_verbose = None\<rparr>"

text \<open>A file system that holds one readable file.\<close>

definition one_file :: "string \<Rightarrow> string \<Rightarrow> filesystem" where
  "one_file path content =
     (\<lambda>p. if p = path then Inr content
          else Inl (''[Errno 2] No such file or directory: '' @ [squote] @ p @ [squote]))"

subsection \<open>The default pattern, parsed\<close>

text \<open>
  The syntax tree of \<open>default_logline\<close>, written out fragment by fragment; that
  \<open>re_compile\<close> produces it is proved below. Group \<open>i\<close> of the tree stands where the
  \<open>i\<close>-th key of \<open>ky_logline\<close> is aimed at.
\<close>

definition lit :: "string \<Rightarrow> rx" where
  "lit s = mk_seq (map Lit s)"

definition digits :: "char \<Rightarrow> char \<Rightarrow> rx" where
  "digits lo hi = In False [Range lo hi]"

definition rx_month :: rx where
  "rx_month = Group 3 (mk_alt (map lit opt_month))"

definition rx_day :: rx where
  "rx_day = Group 4 (mk_alt (map (\<lambda>d. lit (str_nat d)) opt_day))"

definition rx_time :: rx where
  "rx_time =
     Group 5 (Alt (Seq (In False [One (CHR ''0''), One (CHR ''1'')]) (digits (CHR ''0'') (CHR ''9'')))
                  (mk_seq [Lit (CHR ''2''), digits (CHR ''0'') (CHR ''3''), Lit (CHR '':''),
                           digits (CHR ''0'') (CHR ''5''), digits (CHR ''0'') (CHR ''9''),
                           Lit (CHR '':''),
                           digits (CHR ''0'') (CHR ''5''), digits (CHR ''0'') (CHR ''9'')]))"

definition rx_tstamp :: rx where
  "rx_tstamp =
     Group 1 (mk_seq [Group 2 (mk_seq [rx_month, Plus (Lit (CHR '' '')), rx_day]),
                      Lit (CHR '' ''), rx_time])"

definition rx_host :: rx where
  "rx_host = Group 6 (Plus (In True [One (CHR '' '')]))"

definition rx_proc :: rx where
  "rx_proc = Group 7 (Seq (Star (In True [One (CHR '':'')]))
                          (In True [One (CHR '':''), One (CHR '']'')]))"

definition rx_pid :: rx where
  "rx_pid = Opt (NGroup (mk_seq [Lit (CHR ''[''), Group 8 (Plus (digits (CHR ''0'') (CHR ''9''))),
                                 Lit (CHR '']'')]))"

text \<open>Everything before the free text: the items up to the blanks after the colon.\<close>

definition rx_prefix :: "rx list" where
  "rx_prefix = [rx_tstamp, Lit (CHR '' ''), rx_host, Lit (CHR '' ''), rx_proc, rx_pid,
                Lit (CHR '':''), Plus (Lit (CHR '' ''))]"

definition default_rx :: rx where
  "default_rx = mk_seq (rx_prefix @ [Group 9 (Star Dot), Lit (CHR ''\<newline>'')])"

definition default_scanner :: scanner where
  "default_scanner =
     \<lparr>seeline = (default_rx, 9), where_conditions = [], var_names = ky_logline,
      verbose = False\<rparr>"

subsection \<open>Sample lines\<close>

definition line_0314 :: string where
  "line_0314 = ''Oct 12 03:14:15 mail1 postfix/smtp[1234]: message-id=XYZ\<newline>''"

definition line_2314 :: string where
  "line_2314 = ''Oct 12 23:14:15 mail1 postfix/smtp[1234]: message-id=XYZ\<newline>''"

definition line_kernel :: string where
  "line_kernel = ''Oct 12 23:14:16 mail1 kernel: eth0 up\<newline>''"

definition groups_2314 :: "string option list" where
  "groups_2314 =
     [Some ''Oct 12 23:14:15'', Some ''Oct 12'', Some ''Oct'', Some ''12'', Some ''23:14:15'',
      Some ''mail1'', Some ''postfix/smtp'', Some ''1234'', Some ''message-id=XYZ'']"

definition groups_kernel :: "string option list" where
  "groups_kernel =
     [Some ''Oct 12 23:14:16'', Some ''Oct 12'', Some ''Oct'', Some ''12'', Some ''23:14:16'',
      Some ''mail1'', Some ''kernel'', None, Some ''eth0 up'']"

definition skip_missing :: string where
  "skip_missing =
     ''Skipping non-accessible --logfile missing ([Errno 2] No such file or directory: ''
       @ [squote] @ ''missing'' @ [squote] @ '')\<newline>''"

definition printed_2314 :: "string list" where
  "printed_2314 =
     [''timestamp=Oct 12 23:14:15'', ''date=Oct 12'', ''month=Oct'', ''day=12'',
      ''time=23:14:15'', ''host=mail1'', ''proc=postfix/smtp'', ''pid=1234'',
      ''logentry=message-id=XYZ'', '''']"

definition vars_before_pid :: "string list" where
  "vars_before_pid = [''timestamp'', ''date'', ''month'', ''day'', ''time'', ''host'', ''proc'']"

definition vals_kernel :: "string list" where
  "vals_kernel = [''Oct 12 23:14:16'', ''Oct 12'', ''Oct'', ''12'', ''23:14:16'', ''mail1'', ''kernel'']"

definition log_three :: string where
  "log_three = line_2314 @ line_kernel @ line_2314"

subsection \<open>The free text, restricted\<close>







subsection \<open>The time fragment, parsed\<close>

text \<open>
  The two alternatives of the time fragment, what follows the timestamp in the default
  pattern, and the entries of the group list that a pattern writes (group \<open>i\<close> writes
  entry \<open>i - 1\<close>).
\<close>

fun slots_in :: "rx \<Rightarrow> nat list" where
  "slots_in (Seq a b) = slots_in a @ slots_in b"
| "slots_in (Alt a b) = slots_in a @ slots_in b"
| "slots_in (Star a) = slots_in a"
| "slots_in (Plus a) = slots_in a"
| "slots_in (Opt a) = slots_in a"
| "slots_in (Group i a) = (i - 1) # slots_in a"
| "slots_in (NGroup a) = slots_in a"
| "slots_in r = []"

definition hour_only :: rx where
  "hour_only = Seq (In False [One (CHR ''0''), One (CHR ''1'')]) (digits (CHR ''0'') (CHR ''9''))"

definition late_time :: rx where
  "late_time = mk_seq [Lit (CHR ''2''), digits (CHR ''0'') (CHR ''3''), Lit (CHR '':''),
                           digits (CHR ''0'') (CHR ''5''), digits (CHR ''0'') (CHR ''9''),
                           Lit (CHR '':''),
                           digits (CHR ''0'') (CHR ''5''), digits (CHR ''0'') (CHR ''9'')]"

definition rx_after_tstamp :: rx where
  "rx_after_tstamp =
     mk_seq [Lit (CHR '' ''), rx_host, Lit (CHR '' ''), rx_proc, rx_pid, Lit (CHR '':''),
             Plus (Lit (CHR '' '')), Group 9 (Star Dot), Lit (CHR ''\<newline>'')]"




subsection \<open>Restrictions of plain text\<close>





subsection \<open>Restrictions without parenthesis, bracket and backslash\<close>







section \<open>Termination of the parser\<close>

lemma class_atom_length: "class_atom s = Some (c, t) \<Longrightarrow> length t < length s"
  by (cases s) (auto split: if_splits list.splits)

declare class_atom.simps [simp del]

termination parse_items
  by (relation "measure (\<lambda>(acc, s). length s)")
     (auto dest!: class_atom_length)

declare parse_items.simps [simp del]

lemma parse_items_length: "parse_items acc s = Some (items, t) \<Longrightarrow> length t < length s"
proof (induction acc s rule: parse_items.induct)
  case (1 acc s)
  note eq = "1.prems"[unfolded parse_items.simps[of acc s]]
  show ?case
  proof (cases s)
    case Nil
    with eq show ?thesis by simp
  next
    case (Cons c t')
    show ?thesis
    proof (cases "c = CHR '']'' \<and> acc \<noteq> []")
      case True
      with eq Cons show ?thesis by simp
    next
      case False
      then obtain lo s1 where ca: "class_atom s = Some (lo, s1)"
        using eq Cons by (auto split: option.splits)
      have l1: "length s1 < length s" using ca by (rule class_atom_length)
      show ?thesis
      proof (cases s1)
        case Nil
        with eq Cons False ca show ?thesis by (simp split: if_splits)
      next
        case s1c: (Cons d s2)
        show ?thesis
        proof (cases "d = CHR ''-''")
          case dash: True
          show ?thesis
          proof (cases s2)
            case Nil
            with eq Cons False ca s1c dash show ?thesis by (simp split: if_splits)
          next
            case s2c: (Cons e s3)
            show ?thesis
            proof (cases "e = CHR '']''")
              case True
              with eq Cons False ca s1c dash s2c have "t = s3"
                by (auto split: if_splits)
              with l1 s1c s2c show ?thesis by simp
            next
              case ne: False
              then obtain hi s4 where ca2: "class_atom s2 = Some (hi, s4)"
                and ok: "\<not> (of_char hi :: nat) < of_char lo"
                and rec: "parse_items (Range lo hi # acc) s4 = Some (items, t)"
                using eq Cons False ca s1c dash s2c
                by (auto split: option.splits if_splits)
              have "length t < length s4"
                using "1.IH"(1)[OF Cons False ca refl s1c dash s2c ne ca2 refl ok rec] .
              moreover have "length s4 < length s2" using ca2 by (rule class_atom_length)
              ultimately show ?thesis using l1 s1c by simp
            qed
          qed
        next
          case nd: False
          then have rec: "parse_items (One lo # acc) s1 = Some (items, t)"
            using eq Cons False ca s1c by (auto split: if_splits)
          have "length t < length s1"
            using "1.IH"(2)[OF Cons False ca refl s1c nd] rec by simp
          with l1 show ?thesis by simp
        qed
      qed
    qed
  qed
qed

lemma parse_class_length: "parse_class s = Some (r, t) \<Longrightarrow> length t < length s"
  unfolding parse_class_def
  by (cases s) (auto split: if_splits dest!: parse_items_length)

termination parse
  by (relation "measure (\<lambda>(stk, n, s). length s)")
     (auto dest!: parse_class_length)

declare parse.simps [simp del]

section \<open>The matcher\<close>

text \<open>
  The equations of \<open>ms\<close> are unfolded by hand: the one for a repetition mentions the
  repetition again.
\<close>

declare ms.simps [simp del]

lemma one_char_caps: "st' \<in> set (one_char p st) \<Longrightarrow> snd st' = snd st \<and> (\<exists>c. fst st = c # fst st' \<and> p c)"
  by (cases st; cases "fst st") (auto split: if_splits)

lemma in_ms_Seq: "st' \<in> set (ms (Seq a b) st) \<longleftrightarrow> (\<exists>st1 \<in> set (ms a st). st' \<in> set (ms b st1))"
  by (simp add: ms.simps(5))

lemma in_ms_Alt: "st' \<in> set (ms (Alt a b) st) \<longleftrightarrow> st' \<in> set (ms a st) \<or> st' \<in> set (ms b st)"
  by (simp add: ms.simps(6))

lemma in_ms_Star: "st' \<in> set (ms (Star a) st) \<longleftrightarrow>
    st' = st \<or> (\<exists>st1 \<in> set (ms a st). length (fst st1) < length (fst st) \<and> st' \<in> set (ms (Star a) st1))"
  by (subst ms.simps(7)) auto

lemma in_ms_Plus: "st' \<in> set (ms (Plus a) st) \<longleftrightarrow> (\<exists>st1 \<in> set (ms a st). st' \<in> set (ms (Star a) st1))"
  by (simp add: ms.simps(8))

lemma in_ms_Opt: "st' \<in> set (ms (Opt a) st) \<longleftrightarrow> st' \<in> set (ms a st) \<or> st' = st"
  by (auto simp add: ms.simps(9))

lemma in_ms_Group: "st' \<in> set (ms (Group i a) st) \<longleftrightarrow>
    (\<exists>st1 \<in> set (ms a st). st' = (fst st1, (snd st1)[i - 1 := Some (take (length (fst st) - length (fst st1)) (fst st))]))"
  by (auto simp add: ms.simps(10))

lemma ms_caps_length: "st' \<in> set (ms r st) \<Longrightarrow> length (snd st') = length (snd st)"
proof (induction r st arbitrary: st' rule: ms.induct)
  case (1 c st)
  then show ?case by (auto simp: ms.simps dest: one_char_caps)
next
  case (2 st)
  then show ?case by (auto simp: ms.simps dest: one_char_caps)
next
  case (3 neg items st)
  then show ?case by (auto simp: ms.simps dest: one_char_caps)
next
  case (4 st)
  then show ?case by (simp add: ms.simps)
next
  case (5 a b st)
  from "5.prems" obtain st1 where a: "st1 \<in> set (ms a st)" and b: "st' \<in> set (ms b st1)"
    unfolding in_ms_Seq by blast
  from "5.IH"(1)[OF a] "5.IH"(2)[OF a b] show ?case by simp
next
  case (6 a b st)
  from "6.prems" have "st' \<in> set (ms a st) \<or> st' \<in> set (ms b st)" unfolding in_ms_Alt .
  then show ?case using "6.IH" by blast
next
  case (7 a st)
  show ?case
  proof (cases "st' = st")
    case True
    then show ?thesis by simp
  next
    case False
    with "7.prems" obtain st1 where a: "st1 \<in> set (ms a st)"
      and lt: "length (fst st1) < length (fst st)" and b: "st' \<in> set (ms (Star a) st1)"
      by (subst (asm) in_ms_Star) blast
    from "7.IH"(1)[OF a] "7.IH"(2)[OF a lt b] show ?thesis by simp
  qed
next
  case (8 a st)
  from "8.prems" obtain st1 where a: "st1 \<in> set (ms a st)" and b: "st' \<in> set (ms (Star a) st1)"
    unfolding in_ms_Plus by blast
  from "8.IH"(1)[OF a] "8.IH"(2)[OF a b] show ?case by simp
next
  case (9 a st)
  from "9.prems" have "st' \<in> set (ms a st) \<or> st' = st" unfolding in_ms_Opt .
  then show ?case using "9.IH" by blast
next
  case (10 i a st)
  from "10.prems" obtain st1 where a: "st1 \<in> set (ms a st)"
    and e: "st' = (fst st1, (snd st1)[i - 1 := Some (take (length (fst st) - length (fst st1)) (fst st))])"
    unfolding in_ms_Group by blast
  from "10.IH"[OF a] e show ?case by simp
next
  case (11 a st)
  from "11.prems" have "st' \<in> set (ms a st)" by (simp add: ms.simps)
  then show ?case using "11.IH" by blast
qed

lemma re_match_length: "re_match p l = Some gs \<Longrightarrow> length gs = snd p"
proof -
  assume m: "re_match p l = Some gs"
  then obtain st rest where e: "ms (fst p) (l, replicate (snd p) None) = st # rest" and g: "gs = snd st"
    unfolding re_match_def by (auto split: list.splits)
  have "st \<in> set (ms (fst p) (l, replicate (snd p) None))" using e by simp
  from ms_caps_length[OF this] g show ?thesis by simp
qed


lemma in_ms_Lit: "st' \<in> set (ms (Lit c) st) \<longleftrightarrow> fst st = c # fst st' \<and> snd st' = snd st"
  by (cases st; cases "fst st"; cases st') (auto simp: ms.simps)

lemma in_ms_Dot:
  "st' \<in> set (ms Dot st) \<longleftrightarrow> (\<exists>c. c \<noteq> CHR ''\<newline>'' \<and> fst st = c # fst st') \<and> snd st' = snd st"
  by (cases st; cases "fst st"; cases st') (auto simp: ms.simps)








section \<open>The default pattern and the sample lines\<close>

lemma compile_default: "re_compile default_logline = Some (default_rx, 9)"
  by code_simp

lemma match_2314: "re_match (default_rx, 9) line_2314 = Some groups_2314"
  by code_simp

lemma match_kernel: "re_match (default_rx, 9) line_kernel = Some groups_kernel"
  by code_simp

lemma ky_logline_eq:
  "ky_logline = [''timestamp'', ''date'', ''month'', ''day'', ''time'', ''host'', ''proc'', ''pid'', ''logentry'']"
  by (simp add: ky_logline_def ky_tstamp_def ky_month_def ky_day_def ky_time_def ky_host_def
      ky_proc_def ky_pid_def ky_rest_def)

lemma list9:
  assumes "length gs = 9"
  obtains a b c d e f g h i where "gs = [a, b, c, d, e, f, g, h, i]"
  using assms by (auto simp: eval_nat_numeral length_Suc_conv)

lemma dict_zip_nine:
  "dict_zip ky_logline [a, b, c, d, e, f, g, h, i] =
     [''timestamp'' \<mapsto> a, ''date'' \<mapsto> b, ''month'' \<mapsto> c, ''day'' \<mapsto> d, ''time'' \<mapsto> e,
      ''host'' \<mapsto> f, ''proc'' \<mapsto> g, ''pid'' \<mapsto> h, ''logentry'' \<mapsto> i]"
  by (simp add: dict_zip_def ky_logline_eq)

section \<open>The where-clause\<close>


lemma where_loop_test:
  "where_loop (Test var val eq # cs) linevars acc =
     where_loop cs linevars
       (acc \<and> (\<exists>bound. linevars var = Some bound \<and> (bound = Some val) = eq))"
proof (cases "linevars var")
  case None
  then show ?thesis by simp
next
  case (Some bound)
  then show ?thesis by (cases "(bound = Some val) = eq") auto
qed

text \<open>
  C2. The evaluation of the where-clause starts with the accumulator true and goes through
  the conditions from left to right: a test that is met leaves the accumulator as it is, a
  test that is not met makes it false. At the marker of \<^verbatim>\<open>--or\<close> a true accumulator ends
  the evaluation with the result true, whatever conditions follow, and a false accumulator
  is set to true before the evaluation goes on. The clause \<^verbatim>\<open>a=1 --or b=2\<close> selects a line
  that binds \<open>a\<close> to 1 and \<open>b\<close> to 9.
\<close>

theorem where_clause_or_escape:
  "where_clause cs linevars = where_loop cs linevars True
   \<and> where_loop [] linevars acc = acc
   \<and> where_loop (OrMarker # cs) linevars True = True
   \<and> where_loop (OrMarker # cs) linevars False = where_loop cs linevars True
   \<and> where_loop (Test var val eq # cs) linevars acc =
       where_loop cs linevars
         (acc \<and> (\<exists>bound. linevars var = Some bound \<and> (bound = Some val) = eq))
   \<and> where_clause [Test ''a'' ''1'' True, OrMarker, Test ''b'' ''2'' True]
         [''a'' \<mapsto> Some ''1'', ''b'' \<mapsto> Some ''9'']"
  unfolding where_loop_test [symmetric]
  by (simp add: where_clause_def)



text \<open>
  C9. When a line matches and the optional group of the pid has taken no part, the key
  \<open>pid\<close> is still bound, to \<^verbatim>\<open>None\<close>. The variable counts as bound: a test \<^verbatim>\<open>pid!=v\<close> is
  met for every \<open>v\<close> (the accumulator stays as it is) and a test \<^verbatim>\<open>pid=v\<close> is not met.
  This holds for every pattern with as many groups as there are keys, the default pattern
  among them.
\<close>

theorem absent_pid_bound_to_none:
  assumes "re_match p lfl = Some groups" and "snd p = length ky_logline"
    and "groups ! 7 = None"
  shows "dict_zip ky_logline groups ''pid'' = Some None
       \<and> where_loop (Test ''pid'' v False # cs) (dict_zip ky_logline groups) acc =
           where_loop cs (dict_zip ky_logline groups) acc
       \<and> where_loop (Test ''pid'' v True # cs) (dict_zip ky_logline groups) acc =
           where_loop cs (dict_zip ky_logline groups) False"
proof -
  have "length groups = 9"
    using re_match_length[OF assms(1)] assms(2) by (simp add: ky_logline_eq)
  then obtain a b c d e f g h i where gs: "groups = [a, b, c, d, e, f, g, h, i]"
    by (rule list9)
  with assms(3) have h: "h = None" by simp
  have "dict_zip ky_logline groups ''pid'' = Some None"
    unfolding gs dict_zip_nine h by simp
  then show ?thesis by simp
qed

theorem absent_pid_bound_to_none_witness:
  "re_match (default_rx, 9) line_kernel = Some groups_kernel
   \<and> groups_kernel ! 7 = None
   \<and> dict_zip ky_logline groups_kernel ''pid'' = Some None
   \<and> where_clause [Test ''pid'' ''1234'' False] (dict_zip ky_logline groups_kernel)
   \<and> \<not> where_clause [Test ''pid'' ''1234'' True] (dict_zip ky_logline groups_kernel)"
proof -
  have n: "snd (default_rx, 9::nat) = length ky_logline" by (simp add: ky_logline_eq)
  have a: "groups_kernel ! 7 = None" by (simp add: groups_kernel_def)
  from absent_pid_bound_to_none[OF match_kernel n a, of "''1234''" "[]" True]
  show ?thesis using match_kernel a by (simp add: where_clause_def)
qed


section \<open>The scan\<close>

text \<open>
  What a line, a file or the whole scan prints is appended to what was printed before, and
  whether it raises does not depend on what was printed before.
\<close>

lemma print_vars_out:
  "\<exists>added. print_vars vars linevars out = (fst (print_vars vars linevars []), out @ added)
           \<and> snd (print_vars vars linevars []) = added"
proof (induction vars arbitrary: out)
  case Nil
  show ?case by simp
next
  case (Cons var vars)
  show ?case
  proof (cases "linevars var")
    case None
    then show ?thesis by simp
  next
    case (Some bound)
    show ?thesis
    proof (cases bound)
      case None
      with Some show ?thesis by simp
    next
      case (Some v)
      from Cons.IH[of "out @ [var @ ''='' @ v]"] Cons.IH[of "[var @ ''='' @ v]"]
      show ?thesis using \<open>linevars var = Some bound\<close> Some by auto
    qed
  qed
qed

lemma scan_line_out:
  "scan_line su lfl out = (fst (scan_line su lfl []), out @ snd (scan_line su lfl []))"
proof -
  show ?thesis
  proof (cases "re_match (seeline su) lfl")
    case None
    then show ?thesis by (simp add: scan_line_def)
  next
    case (Some groups)
    let ?lv = "dict_zip ky_logline groups"
    from print_vars_out[of "var_names su" ?lv out]
    obtain added where p: "print_vars (var_names su) ?lv out = (fst (print_vars (var_names su) ?lv []), out @ added)"
      and q: "snd (print_vars (var_names su) ?lv []) = added" by blast
    have r: "print_vars (var_names su) ?lv [] = (fst (print_vars (var_names su) ?lv []), added)"
      using q by (simp add: prod_eq_iff)
    show ?thesis
      using Some p r by (cases "fst (print_vars (var_names su) ?lv [])")
        (simp_all add: scan_line_def)
  qed
qed

lemma scan_lines_out:
  "scan_lines su lfls out = (fst (scan_lines su lfls []), out @ snd (scan_lines su lfls []))"
proof (induction lfls arbitrary: out)
  case Nil
  show ?case by simp
next
  case (Cons lfl lfls)
  obtain e added where l0: "scan_line su lfl [] = (e, added)" by (cases "scan_line su lfl []")
  with scan_line_out[of su lfl out] have l1: "scan_line su lfl out = (e, out @ added)" by simp
  show ?case
  proof (cases e)
    case None
    have a: "scan_lines su (lfl # lfls) out = scan_lines su lfls (out @ added)"
      using l1 None by simp
    have b: "scan_lines su (lfl # lfls) [] = scan_lines su lfls added"
      using l0 None by simp
    show ?thesis
      unfolding a b using Cons.IH[of "out @ added"] Cons.IH[of added]
      by (simp add: prod_eq_iff)
  next
    case (Some x)
    then show ?thesis using l0 l1 by simp
  qed
qed

lemma try_logfile_out:
  "try_logfile su fs lf out = (fst (try_logfile su fs lf []), out @ snd (try_logfile su fs lf []))"
  unfolding try_logfile_def
  by (cases "fs lf") (simp_all add: scan_lines_out[symmetric])

lemma scan_append: "scan su fs (xs @ ys) st = scan su fs ys (scan su fs xs st)"
  by (induction xs arbitrary: st) simp_all

lemma scan_logfile_unreadable:
  "fs lf = Inl msg \<Longrightarrow>
   scan_logfile su fs lf st =
     st\<lparr>stderr := stderr st @ [''Skipping non-accessible --logfile '' @ lf @ '' ('' @ msg @ '')\<newline>''],
        warning := True\<rparr>"
  by (simp add: scan_logfile_def try_logfile_def)

lemma stdout_scan_logfile:
  "stdout (scan_logfile su fs lf st) = stdout st @ snd (try_logfile su fs lf [])"
proof -
  obtain e added where t: "try_logfile su fs lf [] = (e, added)" by (cases "try_logfile su fs lf []")
  with try_logfile_out[of su fs lf "stdout st"]
  have "try_logfile su fs lf (stdout st) = (e, stdout st @ added)" by simp
  then show ?thesis using t by (cases e) (simp_all add: scan_logfile_def)
qed

lemma stdout_scan:
  "stdout (scan su fs lfs st) = stdout st @ concat (map (\<lambda>lf. snd (try_logfile su fs lf [])) lfs)"
  by (induction lfs arbitrary: st) (simp_all add: stdout_scan_logfile)

lemma warning_scan_logfile:
  "warning (scan_logfile su fs lf st) = (warning st \<or> fst (try_logfile su fs lf []) \<noteq> None)"
proof -
  obtain e added where t: "try_logfile su fs lf [] = (e, added)" by (cases "try_logfile su fs lf []")
  with try_logfile_out[of su fs lf "stdout st"]
  have "try_logfile su fs lf (stdout st) = (e, stdout st @ added)" by simp
  then show ?thesis using t by (cases e) (simp_all add: scan_logfile_def)
qed

lemma warning_scan:
  "warning (scan su fs lfs st) = (warning st \<or> list_ex (\<lambda>lf. fst (try_logfile su fs lf []) \<noteq> None) lfs)"
  by (induction lfs arbitrary: st) (auto simp: warning_scan_logfile)

lemma stderr_scan_logfile:
  "(stderr (scan_logfile su fs lf st) = []) = (stderr st = [] \<and> fst (try_logfile su fs lf []) = None)"
proof -
  obtain e added where t: "try_logfile su fs lf [] = (e, added)" by (cases "try_logfile su fs lf []")
  with try_logfile_out[of su fs lf "stdout st"]
  have "try_logfile su fs lf (stdout st) = (e, stdout st @ added)" by simp
  then show ?thesis using t by (cases e) (simp_all add: scan_logfile_def)
qed

lemma stderr_scan:
  "(stderr (scan su fs lfs st) = []) = (stderr st = [] \<and> \<not> list_ex (\<lambda>lf. fst (try_logfile su fs lf []) \<noteq> None) lfs)"
  by (induction lfs arbitrary: st) (auto simp: stderr_scan_logfile)

lemma main_status:
  assumes "main a fs = Some r"
  shows "(\<exists>e. out_status r = Uncaught e) \<or> out_status r = Exited (if out_stderr r = [] then 0 else 1)"
  using assms unfolding main_def
  by (auto split: sum.splits halt.splits option.splits prod.splits simp: Let_def warning_scan stderr_scan)

text \<open>
  C7. A log file that cannot be opened is skipped: the handler writes one message and sets
  the warning flag, nothing is printed for the file, and the scan goes on with the files
  that follow, so that the run prints what it prints without the file. The warning flag
  after the scan tells whether some file raised an exception, and the run that reaches its
  end exits with status 0 when nothing was written to the standard error and with status 1
  otherwise (a run can also die of an exception outside the handler).
\<close>

theorem unreadable_source_and_exit_status:
  assumes "fs bad = Inl msg"
  shows "scan_logfile su fs bad st =
           st\<lparr>stderr := stderr st @ [''Skipping non-accessible --logfile '' @ bad @ '' (''
                                      @ msg @ '')\<newline>''],
              warning := True\<rparr>
       \<and> scan su fs (bad # after) st = scan su fs after (scan_logfile su fs bad st)
       \<and> stdout (scan su fs (before @ bad # after) st) = stdout (scan su fs (before @ after) st)
       \<and> warning (scan su fs (before @ bad # after) st)
       \<and> warning (scan su fs lfs st) =
           (warning st \<or> list_ex (\<lambda>lf. fst (try_logfile su fs lf []) \<noteq> None) lfs)
       \<and> (main a fs = Some r \<longrightarrow>
            (\<exists>e. out_status r = Uncaught e)
            \<or> out_status r = Exited (if out_stderr r = [] then 0 else 1))"
proof -
  have t: "try_logfile su fs bad [] = (Some (IOError msg), [])"
    using assms by (simp add: try_logfile_def)
  have 1: "stdout (scan su fs (before @ bad # after) st) = stdout (scan su fs (before @ after) st)"
    by (simp add: stdout_scan t)
  have 2: "warning (scan su fs (before @ bad # after) st)"
    by (simp add: warning_scan t)
  have 0: "scan_logfile su fs bad st =
           st\<lparr>stderr := stderr st @ [''Skipping non-accessible --logfile '' @ bad @ '' (''
                                      @ msg @ '')\<newline>''],
              warning := True\<rparr>"
    using assms by (rule scan_logfile_unreadable)
  have 3: "main a fs = Some r \<longrightarrow>
            (\<exists>e. out_status r = Uncaught e)
            \<or> out_status r = Exited (if out_stderr r = [] then 0 else 1)"
    using main_status by blast
  show ?thesis
    using 0 1 2 3 warning_scan[of su fs lfs st] by simp
qed

lemma main_missing_and_log:
  "main (default_args\<lparr>args_logfile := Some [''missing'', ''log'']\<rparr>) (one_file ''log'' line_2314) =
     Some \<lparr>out_stdout = (''REGEXP '' @ default_logline) # printed_2314,
           out_stderr = [skip_missing], out_status = Exited 1\<rparr>"
  by code_simp

lemma scan_log_only:
  "stdout (scan default_scanner (one_file ''log'' line_2314) [''log'']
            \<lparr>stdout = [], stderr = [], warning = False\<rparr>) = printed_2314"
  by code_simp

theorem unreadable_source_and_exit_status_witness:
  "stdout (scan default_scanner (one_file ''log'' line_2314) [''missing'', ''log'']
            \<lparr>stdout = [], stderr = [], warning = False\<rparr>) = printed_2314
   \<and> warning (scan default_scanner (one_file ''log'' line_2314) [''missing'', ''log'']
            \<lparr>stdout = [], stderr = [], warning = False\<rparr>)
   \<and> main (default_args\<lparr>args_logfile := Some [''missing'', ''log'']\<rparr>)
            (one_file ''log'' line_2314) =
       Some \<lparr>out_stdout = (''REGEXP '' @ default_logline) # printed_2314,
             out_stderr = [skip_missing], out_status = Exited 1\<rparr>"
proof -
  have h: "one_file ''log'' line_2314 ''missing'' =
             Inl (''[Errno 2] No such file or directory: '' @ [squote] @ ''missing'' @ [squote])"
    by (simp add: one_file_def)
  note t = unreadable_source_and_exit_status[where fs = "one_file ''log'' line_2314"
      and bad = "''missing''" and before = "[]" and after = "[''log'']"
      and su = default_scanner and st = "\<lparr>stdout = [], stderr = [], warning = False\<rparr>", OF h]
  from t have 1: "stdout (scan default_scanner (one_file ''log'' line_2314) ([] @ ''missing'' # [''log''])
            \<lparr>stdout = [], stderr = [], warning = False\<rparr>) =
        stdout (scan default_scanner (one_file ''log'' line_2314) ([] @ [''log''])
            \<lparr>stdout = [], stderr = [], warning = False\<rparr>)"
    by blast
  from t have 2: "warning (scan default_scanner (one_file ''log'' line_2314) ([] @ ''missing'' # [''log''])
            \<lparr>stdout = [], stderr = [], warning = False\<rparr>)"
    by blast
  show ?thesis
    using 1 2 scan_log_only main_missing_and_log by (simp only: append_Nil simp_thms)
qed

lemma scan_lines_append:
  "scan_lines su (xs @ ys) out =
     (case scan_lines su xs out of
        (None, out') \<Rightarrow> scan_lines su ys out'
      | (Some e, out') \<Rightarrow> (Some e, out'))"
  by (induction xs arbitrary: out) (auto split: prod.splits option.splits)

lemma print_vars_bound:
  "map linevars vars1 = map (\<lambda>t. Some (Some t)) vals1 \<Longrightarrow>
   print_vars (vars1 @ vars2) linevars out =
     print_vars vars2 linevars (out @ map (\<lambda>(v, t). v @ ''='' @ t) (zip vars1 vals1))"
proof (induction vars1 arbitrary: vals1 out)
  case Nil
  then show ?case by simp
next
  case (Cons v vars1)
  then obtain t ts where "vals1 = t # ts" by (cases vals1) auto
  with Cons show ?case by auto
qed

text \<open>
  C10. When a selected line is printed and a variable of the projection list is not bound
  by the line, or is bound to \<^verbatim>\<open>None\<close>, the \<^verbatim>\<open>print\<close> raises (\<^verbatim>\<open>KeyError\<close>,
  \<^verbatim>\<open>TypeError\<close>). The handler of the file catches the exception: the lines that follow
  in the file are not scanned, the file is reported as not accessible and the warning flag
  is set. What the earlier lines of the file printed, and the \<^verbatim>\<open>name=value\<close> lines of
  the earlier variables of the failing line, stay on the standard output.
\<close>

theorem unprintable_variable_skips_source:
  assumes "fs lf = Inr content"
    and "readlines content = earlier @ lfl # later"
    and "scan_lines su earlier (stdout st) = (None, out1)"
    and "re_match (seeline su) lfl = Some groups"
    and "where_clause (where_conditions su) (dict_zip ky_logline groups)"
    and "var_names su = vars1 @ var # vars2"
    and "map (dict_zip ky_logline groups) vars1 = map (\<lambda>t. Some (Some t)) vals1"
    and "dict_zip ky_logline groups var = None \<or> dict_zip ky_logline groups var = Some None"
  shows "\<exists>e added.
           scan_logfile su fs lf st =
             st\<lparr>stdout := stdout st @ added @ map (\<lambda>(v, t). v @ ''='' @ t) (zip vars1 vals1),
                stderr := stderr st @ [''Skipping non-accessible --logfile '' @ lf @ '' (''
                                        @ str_exn e @ '')\<newline>''],
                warning := True\<rparr>
         \<and> out1 = stdout st @ added
         \<and> (\<exists>msg. e = KeyError var \<or> e = TypeError msg)"
proof -
  let ?lv = "dict_zip ky_logline groups"
  let ?out2 = "out1 @ map (\<lambda>(v, t). v @ ''='' @ t) (zip vars1 vals1)"
  from assms(8) obtain e where e: "print_vars (var # vars2) ?lv ?out2 = (Some e, ?out2)"
    and ek: "\<exists>msg. e = KeyError var \<or> e = TypeError msg"
    by auto
  have pv: "print_vars (var_names su) ?lv out1 = (Some e, ?out2)"
    unfolding assms(6) print_vars_bound[OF assms(7)] by (rule e)
  have sl: "scan_line su lfl out1 = (Some e, ?out2)"
    using assms(4,5) pv by (simp add: scan_line_def)
  have "scan_lines su (earlier @ lfl # later) (stdout st) = (Some e, ?out2)"
    unfolding scan_lines_append using assms(3) sl by simp
  then have tl: "try_logfile su fs lf (stdout st) = (Some e, ?out2)"
    using assms(1,2) by (simp add: try_logfile_def)
  from scan_lines_out[of su earlier "stdout st"] assms(3)
  have o: "out1 = stdout st @ snd (scan_lines su earlier [])" by simp
  show ?thesis
    using tl o ek by (auto simp: scan_logfile_def)
qed

lemma readlines_three: "readlines log_three = [line_2314] @ line_kernel # [line_2314]"
  by code_simp

lemma scan_lines_2314: "scan_lines default_scanner [line_2314] [] = (None, printed_2314)"
  by code_simp

theorem unprintable_variable_skips_source_witness:
  "readlines log_three = [line_2314] @ line_kernel # [line_2314]
   \<and> dict_zip ky_logline groups_kernel ''pid'' = Some None
   \<and> (\<exists>e added.
         scan_logfile default_scanner (one_file ''log'' log_three) ''log''
             \<lparr>stdout = [], stderr = [], warning = False\<rparr> =
           \<lparr>stdout = [] @ added @ map (\<lambda>(v, t). v @ ''='' @ t) (zip vars_before_pid vals_kernel),
            stderr = [] @ [''Skipping non-accessible --logfile '' @ ''log'' @ '' (''
                            @ str_exn e @ '')\<newline>''],
            warning = True\<rparr>
         \<and> printed_2314 = [] @ added
         \<and> (\<exists>msg. e = KeyError ''pid'' \<or> e = TypeError msg))"
proof -
  let ?st = "\<lparr>stdout = [], stderr = [], warning = False\<rparr>"
  have 1: "one_file ''log'' log_three ''log'' = Inr log_three" by (simp add: one_file_def)
  have 3: "scan_lines default_scanner [line_2314] (stdout ?st) = (None, printed_2314)"
    using scan_lines_2314 by simp
  have 4: "re_match (seeline default_scanner) line_kernel = Some groups_kernel"
    using match_kernel by (simp add: default_scanner_def)
  have 5: "where_clause (where_conditions default_scanner) (dict_zip ky_logline groups_kernel)"
    by (simp add: default_scanner_def where_clause_def)
  have 6: "var_names default_scanner = vars_before_pid @ ''pid'' # [''logentry'']"
    by (simp add: default_scanner_def ky_logline_eq vars_before_pid_def)
  have 7: "map (dict_zip ky_logline groups_kernel) vars_before_pid =
             map (\<lambda>t. Some (Some t)) vals_kernel"
    by (simp add: groups_kernel_def dict_zip_nine vars_before_pid_def vals_kernel_def)
  have p: "dict_zip ky_logline groups_kernel ''pid'' = Some None"
    by (simp add: groups_kernel_def dict_zip_nine)
  then have 8: "dict_zip ky_logline groups_kernel ''pid'' = None
              \<or> dict_zip ky_logline groups_kernel ''pid'' = Some None" by simp
  from unprintable_variable_skips_source[where fs = "one_file ''log'' log_three"
      and lf = "''log''", OF 1 readlines_three 3 4 5 6 7 8]
  show ?thesis using readlines_three p by simp
qed

section \<open>End to end\<close>

text \<open>
  C1, as stated, fails: the line of 03:14:15 does not match the default pattern, and the
  run prints nothing but the line \<^verbatim>\<open>REGEXP\<close> with the pattern, which every run prints
  before the scan.
\<close>

theorem end_to_end_0314_counterexample:
  "map_option (\<lambda>p. re_match p line_0314) (re_compile default_logline) = Some None
   \<and> main (default_args\<lparr>args_logfile := Some [''log'']\<rparr>) (one_file ''log'' line_0314) =
       Some \<lparr>out_stdout = [''REGEXP '' @ default_logline], out_stderr = [],
             out_status = Exited 0\<rparr>"
  by code_simp

text \<open>
  C1, as amended. For the same line at 23:14:15, with the default fragments, no
  where-clause and the default projection, the run prints the pattern and then one line
  for each of the nine keys, \<open>timestamp\<close> and \<open>date\<close> first, followed by one empty line;
  nothing goes to the standard error and the exit status is 0.
\<close>

theorem end_to_end_2314:
  "main (default_args\<lparr>args_logfile := Some [''log'']\<rparr>) (one_file ''log'' line_2314) =
     Some \<lparr>out_stdout =
             [''REGEXP '' @ default_logline,
              ''timestamp=Oct 12 23:14:15'', ''date=Oct 12'', ''month=Oct'', ''day=12'',
              ''time=23:14:15'', ''host=mail1'', ''proc=postfix/smtp'', ''pid=1234'',
              ''logentry=message-id=XYZ'', ''''],
           out_stderr = [], out_status = Exited 0\<rparr>"
  by code_simp

section \<open>The time fragment\<close>

text \<open>
  A group is written by its own pattern only, so that the text of the time in a matched
  line is what the time fragment has taken.
\<close>

lemma ms_keeps:
  "st' \<in> set (ms r st) \<Longrightarrow> i \<notin> set (slots_in r) \<Longrightarrow> snd st' ! i = snd st ! i"
proof (induction r st arbitrary: st' rule: ms.induct)
  case (1 c st)
  then show ?case by (simp add: in_ms_Lit)
next
  case (2 st)
  then show ?case by (simp add: in_ms_Dot)
next
  case (3 neg items st)
  then show ?case by (auto simp: ms.simps dest: one_char_caps)
next
  case (4 st)
  then show ?case by (simp add: ms.simps)
next
  case (5 a b st)
  from "5.prems" obtain st1 where a: "st1 \<in> set (ms a st)" and b: "st' \<in> set (ms b st1)"
    unfolding in_ms_Seq by blast
  from "5.prems"(2) have na: "i \<notin> set (slots_in a)" and nb: "i \<notin> set (slots_in b)"
    by simp_all
  from "5.IH"(1)[OF a na] "5.IH"(2)[OF a b nb] show ?case by simp
next
  case (6 a b st)
  from "6.prems"(2) have na: "i \<notin> set (slots_in a)" and nb: "i \<notin> set (slots_in b)"
    by simp_all
  from "6.prems"(1) consider "st' \<in> set (ms a st)" | "st' \<in> set (ms b st)"
    unfolding in_ms_Alt by blast
  then show ?case
  proof cases
    case 1
    then show ?thesis using na by (rule "6.IH"(1))
  next
    case 2
    then show ?thesis using nb by (rule "6.IH"(2))
  qed
next
  case (7 a st)
  show ?case
  proof (cases "st' = st")
    case True
    then show ?thesis by simp
  next
    case False
    with "7.prems" obtain st1 where a: "st1 \<in> set (ms a st)"
      and lt: "length (fst st1) < length (fst st)" and b: "st' \<in> set (ms (Star a) st1)"
      by (subst (asm) in_ms_Star) blast
    from "7.prems"(2) have na: "i \<notin> set (slots_in a)" by simp
    from "7.IH"(1)[OF a na] "7.IH"(2)[OF a lt b "7.prems"(2)] show ?thesis by simp
  qed
next
  case (8 a st)
  from "8.prems" obtain st1 where a: "st1 \<in> set (ms a st)" and b: "st' \<in> set (ms (Star a) st1)"
    unfolding in_ms_Plus by blast
  from "8.prems"(2) have na: "i \<notin> set (slots_in a)" and ns: "i \<notin> set (slots_in (Star a))"
    by simp_all
  from "8.IH"(1)[OF a na] "8.IH"(2)[OF a b ns] show ?case by simp
next
  case (9 a st)
  from "9.prems"(2) have na: "i \<notin> set (slots_in a)" by simp
  from "9.prems"(1) consider "st' \<in> set (ms a st)" | "st' = st"
    unfolding in_ms_Opt by blast
  then show ?case
  proof cases
    case 1
    then show ?thesis using na by (rule "9.IH")
  next
    case 2
    then show ?thesis by simp
  qed
next
  case (10 j a st)
  from "10.prems" obtain st1 where a: "st1 \<in> set (ms a st)"
    and e: "st' = (fst st1, (snd st1)[j - 1 := Some (take (length (fst st) - length (fst st1)) (fst st))])"
    unfolding in_ms_Group by blast
  from "10.prems"(2) have na: "i \<notin> set (slots_in a)" and ne: "j - 1 \<noteq> i" by auto
  have "snd st' ! i = snd st1 ! i" using e ne by simp
  with "10.IH"[OF a na] show ?case by simp
next
  case (11 a st)
  from "11.prems"(2) have na: "i \<notin> set (slots_in a)" by simp
  from "11.prems"(1) have "st' \<in> set (ms a st)" by (simp add: ms.simps)
  then show ?case using na by (rule "11.IH")
qed

lemma in_ms_In:
  "st' \<in> set (ms (In neg items) st) \<longleftrightarrow>
     (\<exists>c. list_ex (citem_ok c) items \<noteq> neg \<and> fst st = c # fst st') \<and> snd st' = snd st"
  by (cases st; cases "fst st"; cases st') (auto simp: ms.simps)

lemma rx_time_alt: "rx_time = Group 5 (Alt hour_only late_time)"
  by (simp add: rx_time_def hour_only_def late_time_def)

lemma hour_only_consumes:
  assumes "st' \<in> set (ms hour_only st)"
  shows "\<exists>a b. fst st = a # b # fst st'"
  using assms by (auto simp: hour_only_def digits_def in_ms_Seq in_ms_In Bex_def)

lemma late_time_consumes:
  assumes "st' \<in> set (ms late_time st)"
  shows "\<exists>a b c d e f g. fst st = CHR ''2'' # a # b # c # d # e # f # g # fst st'"
  using assms by (auto simp: late_time_def digits_def in_ms_Seq in_ms_In in_ms_Lit Bex_def)

lemma time_group_text:
  assumes "st' \<in> set (ms rx_time st)" and "length (snd st) = 9"
  shows "\<exists>t. snd st' ! 4 = Some t \<and> (length t = 2 \<or> length t = 8 \<and> t ! 0 = CHR ''2'')"
proof -
  from assms(1) obtain s1 where s1: "s1 \<in> set (ms (Alt hour_only late_time) st)"
    and e: "st' = (fst s1, (snd s1)[5 - 1 := Some (take (length (fst st) - length (fst s1)) (fst st))])"
    unfolding rx_time_alt in_ms_Group by blast
  have len: "length (snd s1) = 9" using ms_caps_length[OF s1] assms(2) by simp
  then have v: "snd st' ! 4 = Some (take (length (fst st) - length (fst s1)) (fst st))"
    using e by simp
  from s1 consider "s1 \<in> set (ms hour_only st)" | "s1 \<in> set (ms late_time st)"
    unfolding in_ms_Alt by blast
  then show ?thesis
  proof cases
    case 1
    from hour_only_consumes[OF 1] obtain a b where "fst st = a # b # fst s1" by blast
    then have "take (length (fst st) - length (fst s1)) (fst st) = [a, b]" by simp
    with v show ?thesis by simp
  next
    case 2
    from late_time_consumes[OF 2] obtain a b c d e f g
      where "fst st = CHR ''2'' # a # b # c # d # e # f # g # fst s1" by blast
    then have "take (length (fst st) - length (fst s1)) (fst st) = CHR ''2'' # [a, b, c, d, e, f, g]"
      by simp
    with v show ?thesis by simp
  qed
qed

lemma default_rx_split: "default_rx = Seq rx_tstamp rx_after_tstamp"
  by (simp add: default_rx_def rx_prefix_def rx_after_tstamp_def)

lemma slots_after_tstamp: "4 \<notin> set (slots_in rx_after_tstamp)"
  by (simp add: rx_after_tstamp_def rx_host_def rx_proc_def rx_pid_def digits_def)

lemma matched_time_text:
  assumes "re_match (default_rx, 9) lfl = Some groups"
  shows "\<exists>t. groups ! 4 = Some t \<and> (length t = 2 \<or> length t = 8 \<and> t ! 0 = CHR ''2'')"
proof -
  let ?init = "(lfl, replicate 9 None :: string option list)"
  from assms obtain h rest where hd: "ms default_rx ?init = h # rest" and g: "groups = snd h"
    unfolding re_match_def by (auto split: list.splits)
  then have "h \<in> set (ms (Seq rx_tstamp rx_after_tstamp) ?init)"
    by (simp add: default_rx_split)
  then obtain st1 where t1: "st1 \<in> set (ms rx_tstamp ?init)"
    and h1: "h \<in> set (ms rx_after_tstamp st1)"
    unfolding in_ms_Seq by blast
  have k: "snd h ! 4 = snd st1 ! 4"
    using h1 slots_after_tstamp by (rule ms_keeps)
  from t1 obtain s1 where s1: "s1 \<in> set (ms (mk_seq [Group 2 (mk_seq [rx_month, Plus (Lit (CHR '' '')), rx_day]),
                      Lit (CHR '' ''), rx_time]) ?init)"
    and e1: "st1 = (fst s1, (snd s1)[1 - 1 := Some (take (length (fst ?init) - length (fst s1)) (fst ?init))])"
    unfolding rx_tstamp_def in_ms_Group by blast
  from e1 have k1: "snd st1 ! 4 = snd s1 ! 4" by simp
  from s1 obtain sa sb where sa: "sa \<in> set (ms (Group 2 (mk_seq [rx_month, Plus (Lit (CHR '' '')), rx_day])) ?init)"
    and sb: "sb \<in> set (ms (Lit (CHR '' '')) sa)" and st: "s1 \<in> set (ms rx_time sb)"
    unfolding mk_seq.simps in_ms_Seq by blast
  have "length (snd sb) = 9"
    using ms_caps_length[OF sa] ms_caps_length[OF sb] by simp
  from time_group_text[OF st this] k k1 g show ?thesis by simp
qed

lemma time_fragment_examples:
  "re_compile re_time =
     Some (Group 1 (Alt (Seq (In False [One (CHR ''0''), One (CHR ''1'')]) (digits (CHR ''0'') (CHR ''9'')))
                  (mk_seq [Lit (CHR ''2''), digits (CHR ''0'') (CHR ''3''), Lit (CHR '':''),
                           digits (CHR ''0'') (CHR ''5''), digits (CHR ''0'') (CHR ''9''),
                           Lit (CHR '':''),
                           digits (CHR ''0'') (CHR ''5''), digits (CHR ''0'') (CHR ''9'')])), 1)
   \<and> \<not> re_matches default_logline ''Oct 12 03:14:15 mail1 postfix/smtp[1234]: message-id=XYZ\<newline>''
   \<and> \<not> re_matches default_logline ''Jan 1 00:00:00 host proc: text\<newline>''
   \<and> \<not> re_matches default_logline ''Dec 31 19:59:59 host proc[1]: text\<newline>''
   \<and> re_matches default_logline ''Dec 31 20:00:00 host proc[1]: text\<newline>''
   \<and> re_matches default_logline ''Oct 12 03 mail1 postfix/smtp[1234]: message-id=XYZ\<newline>''"
  by code_simp

text \<open>
  C3. The time fragment is an alternative between the two digits of an hour up to 19 and a
  whole time of day from 20:00:00 on: the bar binds weaker than the sequence. In every line
  that the default pattern matches, the time is therefore either two characters or eight
  characters of which the first is 2; a time of day before 20:00:00 is never the time of a
  matched line. The line of 03:14:15 and lines at 00:00:00 and 19:59:59 are not matched,
  although they have the form that the pattern is meant for; a line at 20:00:00 is, and so
  is a line with an hour alone in the place of the time.
\<close>

theorem time_fragment_hours:
  assumes "re_match (default_rx, 9) lfl = Some groups"
  shows "(\<exists>t. groups ! 4 = Some t \<and> (length t = 2 \<or> length t = 8 \<and> t ! 0 = CHR ''2''))
       \<and> re_compile default_logline = Some (default_rx, 9)
       \<and> \<not> re_matches default_logline ''Oct 12 03:14:15 mail1 postfix/smtp[1234]: message-id=XYZ\<newline>''
       \<and> \<not> re_matches default_logline ''Jan 1 00:00:00 host proc: text\<newline>''
       \<and> \<not> re_matches default_logline ''Dec 31 19:59:59 host proc[1]: text\<newline>''
       \<and> re_matches default_logline ''Dec 31 20:00:00 host proc[1]: text\<newline>''
       \<and> re_matches default_logline ''Oct 12 03 mail1 postfix/smtp[1234]: message-id=XYZ\<newline>''"
  using matched_time_text[OF assms] compile_default time_fragment_examples by blast

theorem time_fragment_hours_witness:
  "re_match (default_rx, 9) line_2314 = Some groups_2314
   \<and> groups_2314 ! 4 = Some ''23:14:15''
   \<and> (\<exists>t. groups_2314 ! 4 = Some t \<and> (length t = 2 \<or> length t = 8 \<and> t ! 0 = CHR ''2''))
   \<and> \<not> re_matches default_logline ''Oct 12 03:14:15 mail1 postfix/smtp[1234]: message-id=XYZ\<newline>''"
proof -
  have "groups_2314 ! 4 = Some ''23:14:15''" by (simp add: groups_2314_def)
  with time_fragment_hours[OF match_2314] match_2314 show ?thesis by blast
qed

section \<open>A line that does not match\<close>

text \<open>
  C4. Under \<^verbatim>\<open>--verbose\<close> a line that does not match ends the scan of its file: the
  report of the line raises, the handler of the file reports the file as not accessible,
  and the matching line that follows is never printed. Without \<^verbatim>\<open>--verbose\<close> the same
  file is scanned to its end.
\<close>

theorem verbose_mismatch_aborts_source:
  "main (default_args\<lparr>args_logfile := Some [''log''], args_verbose := Some 1\<rparr>)
        (one_file ''log'' (''no log line\<newline>'' @ line_2314)) =
     Some \<lparr>out_stdout = [''REGEXP '' @ default_logline],
           out_stderr = [''Skipping non-accessible --logfile log (function takes exactly 1 argument (2 given))\<newline>''],
           out_status = Exited 1\<rparr>
   \<and> main (default_args\<lparr>args_logfile := Some [''log'']\<rparr>)
        (one_file ''log'' (''no log line\<newline>'' @ line_2314)) =
     Some \<lparr>out_stdout =
             [''REGEXP '' @ default_logline,
              ''timestamp=Oct 12 23:14:15'', ''date=Oct 12'', ''month=Oct'', ''day=12'',
              ''time=23:14:15'', ''host=mail1'', ''proc=postfix/smtp'', ''pid=1234'',
              ''logentry=message-id=XYZ'', ''''],
           out_stderr = [], out_status = Exited 0\<rparr>"
  by code_simp

section \<open>The free text fragment\<close>























section \<open>Groups and keys\<close>





lemma slots_lit [simp]: "slots_in (lit s) = []"
proof -
  have "slots_in (mk_seq (map Lit s)) = []"
    by (induction s rule: induct_list012) simp_all
  then show ?thesis by (simp add: lit_def)
qed

lemma slots_mk_alt_lits [simp]: "slots_in (mk_alt (map lit ss)) = []"
  by (induction ss rule: induct_list012) simp_all

lemma slots_mk_alt_lits_map [simp]: "slots_in (mk_alt (map (\<lambda>d. lit (f d)) ds)) = []"
  using slots_mk_alt_lits[of "map f ds"] by (simp add: comp_def)













































end
